theory Spec2Isabelle
  imports Main "HOL-Library.Sublist"
begin

section \<open>Middleware decorators of adonisjs-girouette\<close>

text \<open>
  The three decorator factories \<open>GroupMiddleware\<close>, \<open>RouteMiddleware\<close> and
  \<open>ResourceMiddleware\<close> read a metadata value of a controller class, merge a middleware
  declaration into it and write it back (\<open>src/decorators\<close>: \<open>group_middleware\<close>,
  \<open>route_middleware\<close>, \<open>resource_middleware\<close>). The embedding below follows the
  TypeScript statement by statement; the JavaScript state the statements touch is passed
  explicitly.
\<close>

subsection \<open>Values\<close>

text \<open>
  \<open>OneOrMore<T>\<close> is \<open>T | T[]\<close>: one handler, or an array of handlers. The decorators
  receive such a value and store it as one group.
\<close>

datatype 'm one_or_more = One 'm | More "'m list"

text \<open>
  The values a prototype property or a field of a route entry can hold, as far as
  \<open>typeof\<close> tells them apart.
\<close>

datatype js_value =
    VUndefined
  | VNull
  | VBoolean bool
  | VNumber int
  | VString string
  | VObject
  | VFunction

fun typeof :: "js_value \<Rightarrow> string" where
  "typeof VUndefined = ''undefined''"
| "typeof VNull = ''object''"
| "typeof (VBoolean b) = ''boolean''"
| "typeof (VNumber n) = ''number''"
| "typeof (VString s) = ''string''"
| "typeof VObject = ''object''"
| "typeof VFunction = ''function''"

text \<open>
  A controller class: its identity (the key of the metadata store) and the own
  string-keyed properties of \<open>target.prototype\<close> with the values a read yields, in the
  order \<open>Object.getOwnPropertyNames\<close> lists them. The names of an object are distinct;
  the theorems that need it assume it.
\<close>

record js_class =
  class_id :: nat
  prototype :: "(string \<times> js_value) list"

definition getOwnPropertyNames :: "(string \<times> js_value) list \<Rightarrow> string list" where
  "getOwnPropertyNames props = map fst props"

text \<open>
  \<open>target.prototype[key]\<close>. The loop of \<open>GroupMiddleware\<close> reads own names only, so the
  second branch (a name the prototype does not own) is never taken there.
\<close>

definition prop_get :: "(string \<times> js_value) list \<Rightarrow> string \<Rightarrow> js_value" where
  "prop_get props key = (case map_of props key of Some v \<Rightarrow> v | None \<Rightarrow> VUndefined)"

subsection \<open>Metadata\<close>

text \<open>
  A route entry \<open>routes[key]\<close>: the \<open>middleware\<close> array of groups (absent until the first
  group is attached) and the fields other decorators of the package put there.
  A routes object maps method names to entries (its own properties).
\<close>

record 'm route_entry =
  middleware :: "'m one_or_more list option"
  other :: "string \<rightharpoonup> js_value"

type_synonym 'm routes = "string \<rightharpoonup> 'm route_entry"

definition empty_entry :: "'m route_entry" where
  "empty_entry = \<lparr>middleware = None, other = Map.empty\<rparr>"

text \<open>
  The \<open>actions\<close> argument of \<open>ResourceMiddleware\<close> has the type
  \<open>ResourceActionNames | '*' | ResourceActionNames[]\<close>: at run time a string (the wildcard
  is the string \<open>*\<close>) or an array of strings.
\<close>

datatype actions_arg = Action string | ActionList "string list"

record 'm resource_record =
  res_actions :: actions_arg
  res_middleware :: "'m one_or_more"

text \<open>
  The state the decorators read and write.

  \<^item> \<open>routes_meta\<close> and \<open>resource_meta\<close> are the metadata store under the keys
    \<open>REFLECT_ROUTES_KEY\<close> and \<open>REFLECT_RESOURCE_MIDDLEWARE_KEY\<close>, one slot per class:
    \<open>Reflect.getMetadata\<close> looks a slot up, \<open>Reflect.defineMetadata\<close> sets it. The store
    belongs to the host; it is taken as this key/value facility, each class with a slot of
    its own (a class that would be handed the metadata object of a superclass is outside
    the model).
  \<^item> A routes object is created by the literal \<open>{}\<close>, so \<open>routes[key]\<close> also finds what
    \<open>Object.prototype\<close> provides. An assignment to \<open>routes[key].middleware\<close> then lands on
    that inherited object: \<open>builtin_middleware\<close> holds the \<open>middleware\<close> property of the
    function objects of \<open>Object.prototype\<close> (by property name), and
    \<open>object_prototype_middleware\<close> the \<open>middleware\<close> property of \<open>Object.prototype\<close>
    itself, which every object without such a property of its own inherits.
\<close>

record 'm world =
  routes_meta :: "nat \<rightharpoonup> 'm routes"
  resource_meta :: "nat \<rightharpoonup> 'm resource_record list"
  builtin_middleware :: "string \<rightharpoonup> 'm one_or_more list"
  object_prototype_middleware :: "'m one_or_more list option"

text \<open>
  The function-valued properties of \<open>Object.prototype\<close> (ECMAScript 20.1.3 and B.2.2).
  Its remaining property, the accessor \<open>__proto__\<close>, evaluates to \<open>Object.prototype\<close>.
\<close>

definition object_prototype_functions :: "string list" where
  "object_prototype_functions =
     [''constructor'', ''hasOwnProperty'', ''isPrototypeOf'', ''propertyIsEnumerable'',
      ''toLocaleString'', ''toString'', ''valueOf'',
      ''__defineGetter__'', ''__defineSetter__'', ''__lookupGetter__'', ''__lookupSetter__'']"

definition inherited_key :: "string \<Rightarrow> bool" where
  "inherited_key key = (key \<in> set object_prototype_functions \<or> key = ''__proto__'')"

text \<open>The process before any decorator has run.\<close>

definition fresh_world :: "'m world" where
  "fresh_world = \<lparr>routes_meta = Map.empty, resource_meta = Map.empty,
     builtin_middleware = Map.empty, object_prototype_middleware = None\<rparr>"

subsection \<open>The merge block\<close>

text \<open>
  \<open>GroupMiddleware\<close> and \<open>RouteMiddleware\<close> share these statements:
  \<^verbatim>\<open>
    if (!routes[key]) { routes[key] = {} }
    if (!routes[key].middleware) { routes[key].middleware = [middleware] }
    else { routes[key].middleware.push(middleware) }
  \<close>
  \<open>push_entry\<close> is the second statement when \<open>routes[key]\<close> is the own entry \<open>e\<close>:
  its own array is extended; without one, the read falls through to
  \<open>Object.prototype.middleware\<close>, and only if that is undefined too is a new array assigned.
\<close>

definition push_entry ::
  "string \<Rightarrow> 'm route_entry \<Rightarrow> 'm one_or_more \<Rightarrow> 'm routes \<Rightarrow> 'm world \<Rightarrow> 'm routes \<times> 'm world" where
  "push_entry key e mw routes w =
     (case middleware e of
        Some groups \<Rightarrow> (routes(key \<mapsto> e\<lparr>middleware := Some (groups @ [mw])\<rparr>), w)
      | None \<Rightarrow>
          (case object_prototype_middleware w of
             None \<Rightarrow> (routes(key \<mapsto> e\<lparr>middleware := Some [mw]\<rparr>), w)
           | Some groups \<Rightarrow>
               (routes(key \<mapsto> e), w\<lparr>object_prototype_middleware := Some (groups @ [mw])\<rparr>)))"

text \<open>
  \<open>attach\<close> is the whole block. Without an own property \<open>key\<close>, \<open>routes[key]\<close> is
  the built-in function of that name (truthy, so no entry is created and the group goes to
  the function object), or \<open>Object.prototype\<close> for \<open>__proto__\<close>, or, for the name
  \<open>middleware\<close>, the array \<open>Object.prototype.middleware\<close> once that exists (an array
  inherits the property too, so \<open>routes[key].middleware\<close> is the same array and the
  group is pushed onto it), or undefined, and only then \<open>routes[key] = {}\<close> runs.
\<close>

definition attach ::
  "string \<Rightarrow> 'm one_or_more \<Rightarrow> 'm routes \<Rightarrow> 'm world \<Rightarrow> 'm routes \<times> 'm world" where
  "attach key mw routes w =
     (case routes key of
        Some e \<Rightarrow> push_entry key e mw routes w
      | None \<Rightarrow>
          if key \<in> set object_prototype_functions then
            (case builtin_middleware w key of
               Some groups \<Rightarrow>
                 (routes, w\<lparr>builtin_middleware := (builtin_middleware w)(key \<mapsto> groups @ [mw])\<rparr>)
             | None \<Rightarrow>
                 (case object_prototype_middleware w of
                    None \<Rightarrow> (routes, w\<lparr>builtin_middleware := (builtin_middleware w)(key \<mapsto> [mw])\<rparr>)
                  | Some groups \<Rightarrow>
                      (routes, w\<lparr>object_prototype_middleware := Some (groups @ [mw])\<rparr>)))
          else if key = ''__proto__'' then
            (case object_prototype_middleware w of
               None \<Rightarrow> (routes, w\<lparr>object_prototype_middleware := Some [mw]\<rparr>)
             | Some groups \<Rightarrow> (routes, w\<lparr>object_prototype_middleware := Some (groups @ [mw])\<rparr>))
          else if key = ''middleware'' then
            (case object_prototype_middleware w of
               None \<Rightarrow> push_entry key empty_entry mw routes w
             | Some groups \<Rightarrow> (routes, w\<lparr>object_prototype_middleware := Some (groups @ [mw])\<rparr>))
          else push_entry key empty_entry mw routes w)"

subsection \<open>The decorators\<close>

text \<open>
  \<open>Reflect.getMetadata(REFLECT_ROUTES_KEY, target) || {}\<close> and
  \<open>Reflect.getMetadata(REFLECT_RESOURCE_MIDDLEWARE_KEY, target) || []\<close>.
\<close>

definition routes_or_new :: "'m world \<Rightarrow> nat \<Rightarrow> 'm routes" where
  "routes_or_new w c = (case routes_meta w c of Some routes \<Rightarrow> routes | None \<Rightarrow> Map.empty)"

definition resources_of :: "'m world \<Rightarrow> nat \<Rightarrow> 'm resource_record list" where
  "resources_of w c = (case resource_meta w c of Some records \<Rightarrow> records | None \<Rightarrow> [])"

text \<open>
  The loop of \<open>GroupMiddleware\<close> over \<open>Object.getOwnPropertyNames(target.prototype)\<close>;
  \<open>method_key\<close> is the condition of its \<open>if\<close>.
\<close>

definition method_key :: "(string \<times> js_value) list \<Rightarrow> string \<Rightarrow> bool" where
  "method_key props key = (key \<noteq> ''constructor'' \<and> typeof (prop_get props key) = ''function'')"

fun annotate_all ::
  "string list \<Rightarrow> (string \<times> js_value) list \<Rightarrow> 'm one_or_more \<Rightarrow> 'm routes \<Rightarrow> 'm world
     \<Rightarrow> 'm routes \<times> 'm world" where
  "annotate_all [] props mw routes w = (routes, w)"
| "annotate_all (key # keys) props mw routes w =
     (if method_key props key
      then (case attach key mw routes w of
              (routes', w') \<Rightarrow> annotate_all keys props mw routes' w')
      else annotate_all keys props mw routes w)"

definition GroupMiddleware :: "'m one_or_more \<Rightarrow> js_class \<Rightarrow> 'm world \<Rightarrow> 'm world" where
  "GroupMiddleware mw target w =
     (case annotate_all (getOwnPropertyNames (prototype target)) (prototype target) mw
             (routes_or_new w (class_id target)) w of
        (routes, w') \<Rightarrow> w'\<lparr>routes_meta := (routes_meta w')(class_id target \<mapsto> routes)\<rparr>)"

text \<open>
  \<open>RouteMiddleware\<close>: the decorator receives the prototype and the method name;
  \<open>ctor\<close> is the class \<open>target.constructor\<close>.
\<close>

definition RouteMiddleware :: "'m one_or_more \<Rightarrow> js_class \<Rightarrow> string \<Rightarrow> 'm world \<Rightarrow> 'm world" where
  "RouteMiddleware mw ctor key w =
     (case attach key mw (routes_or_new w (class_id ctor)) w of
        (routes, w') \<Rightarrow> w'\<lparr>routes_meta := (routes_meta w')(class_id ctor \<mapsto> routes)\<rparr>)"

definition ResourceMiddleware ::
  "actions_arg \<Rightarrow> 'm one_or_more \<Rightarrow> js_class \<Rightarrow> 'm world \<Rightarrow> 'm world" where
  "ResourceMiddleware actions mw target w =
     w\<lparr>resource_meta := (resource_meta w)(class_id target \<mapsto>
          resources_of w (class_id target) @ [\<lparr>res_actions = actions, res_middleware = mw\<rparr>])\<rparr>"

subsection \<open>Reading the store\<close>

text \<open>
  What the store holds for a class and a method name: the entry (an own property of the
  routes object), its array of groups, and the groups as a list (empty when there is no
  entry or no array).
\<close>

definition route_of :: "'m world \<Rightarrow> nat \<Rightarrow> string \<Rightarrow> 'm route_entry option" where
  "route_of w c key = (case routes_meta w c of None \<Rightarrow> None | Some routes \<Rightarrow> routes key)"

definition middleware_of :: "'m world \<Rightarrow> nat \<Rightarrow> string \<Rightarrow> 'm one_or_more list option" where
  "middleware_of w c key = (case route_of w c key of None \<Rightarrow> None | Some e \<Rightarrow> middleware e)"

definition groups_of :: "'m world \<Rightarrow> nat \<Rightarrow> string \<Rightarrow> 'm one_or_more list" where
  "groups_of w c key = (case middleware_of w c key of None \<Rightarrow> [] | Some groups \<Rightarrow> groups)"

text \<open>
  The names the loop of \<open>GroupMiddleware\<close> annotates: own, not \<open>constructor\<close>, and
  holding a function.
\<close>

definition own_methods :: "(string \<times> js_value) list \<Rightarrow> string list" where
  "own_methods props = filter (method_key props) (getOwnPropertyNames props)"

text \<open>
  An entry with one more group at the end of its array; a missing entry counts as \<open>{}\<close>
  and a missing array as empty.
\<close>

definition entry_groups :: "'m route_entry \<Rightarrow> 'm one_or_more list" where
  "entry_groups e = (case middleware e of None \<Rightarrow> [] | Some groups \<Rightarrow> groups)"

definition with_group :: "'m one_or_more \<Rightarrow> 'm route_entry option \<Rightarrow> 'm route_entry" where
  "with_group mw r =
     (case r of
        None \<Rightarrow> empty_entry\<lparr>middleware := Some [mw]\<rparr>
      | Some e \<Rightarrow> e\<lparr>middleware := Some (entry_groups e @ [mw])\<rparr>)"

text \<open>
  The three entry points as one operation, with the method names each is aimed at.
\<close>

datatype 'm annotation =
    Group "'m one_or_more" js_class
  | Route "'m one_or_more" js_class string
  | Resource actions_arg "'m one_or_more" js_class

fun annotate :: "'m annotation \<Rightarrow> 'm world \<Rightarrow> 'm world" where
  "annotate (Group mw target) w = GroupMiddleware mw target w"
| "annotate (Route mw ctor key) w = RouteMiddleware mw ctor key w"
| "annotate (Resource actions mw target) w = ResourceMiddleware actions mw target w"

fun targeted :: "'m annotation \<Rightarrow> string list" where
  "targeted (Group mw target) = own_methods (prototype target)"
| "targeted (Route mw ctor key) = [key]"
| "targeted (Resource actions mw target) = []"

text \<open>
  One slot of a routes object is extended by another: an entry stays an entry, keeps its
  other fields and its groups as the first groups of the array, and keeps an array if it
  had one.
\<close>

definition entry_extends :: "'m route_entry \<Rightarrow> 'm route_entry \<Rightarrow> bool" where
  "entry_extends e e' =
     (other e' = other e \<and> prefix (entry_groups e) (entry_groups e') \<and>
      (middleware e = None \<or> middleware e' \<noteq> None))"

definition slot_extends :: "'m route_entry option \<Rightarrow> 'm route_entry option \<Rightarrow> bool" where
  "slot_extends r r' =
     (case r of
        None \<Rightarrow> True
      | Some e \<Rightarrow> (case r' of None \<Rightarrow> False | Some e' \<Rightarrow> entry_extends e e'))"

subsection \<open>Sample controllers\<close>

text \<open>
  \<^verbatim>\<open>class PostsController { index() {} store() {} }\<close> with
  \<^verbatim>\<open>PostsController.prototype.version = 1\<close>,
  \<^verbatim>\<open>class ReportsController { index() {} toString() {} }\<close>,
  \<^verbatim>\<open>class LabelsController { toString() {} }\<close> and
  \<^verbatim>\<open>class EmptyController {}\<close>.
\<close>

definition posts_controller :: js_class where
  "posts_controller =
     \<lparr>class_id = 0,
      prototype = [(''constructor'', VFunction), (''index'', VFunction), (''store'', VFunction),
                   (''version'', VNumber 1)]\<rparr>"

definition reports_controller :: js_class where
  "reports_controller =
     \<lparr>class_id = 1,
      prototype = [(''constructor'', VFunction), (''index'', VFunction), (''toString'', VFunction)]\<rparr>"

definition labels_controller :: js_class where
  "labels_controller =
     \<lparr>class_id = 2, prototype = [(''constructor'', VFunction), (''toString'', VFunction)]\<rparr>"

definition empty_controller :: js_class where
  "empty_controller = \<lparr>class_id = 3, prototype = [(''constructor'', VFunction)]\<rparr>"

section \<open>Properties\<close>

subsection \<open>The merge block\<close>

text \<open>
  The block writes to the routes object it is given and, for an inherited name, to the
  objects of \<open>Object.prototype\<close>; the metadata store is not touched by it.
\<close>

lemma push_entry_shape:
  "\<exists>e' p. push_entry key e mw routes w =
     (routes(key \<mapsto> e'), w\<lparr>object_prototype_middleware := p\<rparr>)"
proof (cases "middleware e")
  case (Some groups)
  then have "push_entry key e mw routes w =
      (routes(key \<mapsto> e\<lparr>middleware := Some (groups @ [mw])\<rparr>),
       w\<lparr>object_prototype_middleware := object_prototype_middleware w\<rparr>)"
    by (simp add: push_entry_def)
  then show ?thesis by blast
next
  case None
  show ?thesis
  proof (cases "object_prototype_middleware w")
    case None
    with \<open>middleware e = None\<close> have "push_entry key e mw routes w =
        (routes(key \<mapsto> e\<lparr>middleware := Some [mw]\<rparr>),
         w\<lparr>object_prototype_middleware := object_prototype_middleware w\<rparr>)"
      by (simp add: push_entry_def)
    then show ?thesis by blast
  next
    case (Some groups)
    with \<open>middleware e = None\<close> have "push_entry key e mw routes w =
        (routes(key \<mapsto> e), w\<lparr>object_prototype_middleware := Some (groups @ [mw])\<rparr>)"
      by (simp add: push_entry_def)
    then show ?thesis by blast
  qed
qed

lemma attach_shape:
  "(\<exists>e. attach key mw routes w = push_entry key e mw routes w) \<or>
   (\<exists>b p. attach key mw routes w =
      (routes, w\<lparr>builtin_middleware := b, object_prototype_middleware := p\<rparr>))"
proof (cases "routes key")
  case (Some e)
  then have "attach key mw routes w = push_entry key e mw routes w" by (simp add: attach_def)
  then show ?thesis by blast
next
  case None
  show ?thesis
  proof (cases "key \<in> set object_prototype_functions")
    case True
    show ?thesis
    proof (cases "builtin_middleware w key")
      case (Some groups)
      with None True have "attach key mw routes w =
          (routes, w\<lparr>builtin_middleware := (builtin_middleware w)(key \<mapsto> groups @ [mw]),
             object_prototype_middleware := object_prototype_middleware w\<rparr>)"
        by (simp add: attach_def)
      then show ?thesis by blast
    next
      case no_own: None
      show ?thesis
      proof (cases "object_prototype_middleware w")
        case None
        with \<open>routes key = None\<close> True no_own have "attach key mw routes w =
            (routes, w\<lparr>builtin_middleware := (builtin_middleware w)(key \<mapsto> [mw]),
               object_prototype_middleware := object_prototype_middleware w\<rparr>)"
          by (simp add: attach_def)
        then show ?thesis by blast
      next
        case (Some groups)
        with \<open>routes key = None\<close> True no_own have "attach key mw routes w =
            (routes, w\<lparr>builtin_middleware := builtin_middleware w,
               object_prototype_middleware := Some (groups @ [mw])\<rparr>)"
          by (simp add: attach_def)
        then show ?thesis by blast
      qed
    qed
  next
    case False
    show ?thesis
    proof (cases "object_prototype_middleware w")
      case no_proto: None
      show ?thesis
      proof (cases "key = ''__proto__''")
        case True
        with None False no_proto have "attach key mw routes w =
            (routes, w\<lparr>builtin_middleware := builtin_middleware w,
               object_prototype_middleware := Some [mw]\<rparr>)"
          by (simp add: attach_def)
        then show ?thesis by blast
      next
        case plain: False
        with None False no_proto have
          "attach key mw routes w = push_entry key empty_entry mw routes w"
          by (simp add: attach_def)
        then show ?thesis by blast
      qed
    next
      case (Some groups)
      show ?thesis
      proof (cases "key = ''__proto__'' \<or> key = ''middleware''")
        case True
        with None False Some have "attach key mw routes w =
            (routes, w\<lparr>builtin_middleware := builtin_middleware w,
               object_prototype_middleware := Some (groups @ [mw])\<rparr>)"
          by (auto simp: attach_def)
        then show ?thesis by blast
      next
        case plain: False
        with None False Some have
          "attach key mw routes w = push_entry key empty_entry mw routes w"
          by (simp add: attach_def)
        then show ?thesis by blast
      qed
    qed
  qed
qed

lemma attach_meta:
  "routes_meta (snd (attach key mw routes w)) = routes_meta w"
  "resource_meta (snd (attach key mw routes w)) = resource_meta w"
proof -
  have "\<exists>r b p. attach key mw routes w =
      (r, w\<lparr>builtin_middleware := b, object_prototype_middleware := p\<rparr>)"
    using attach_shape [of key mw routes w]
  proof
    assume "\<exists>e. attach key mw routes w = push_entry key e mw routes w"
    then obtain e where a: "attach key mw routes w = push_entry key e mw routes w" by blast
    from push_entry_shape [of key e mw routes w] obtain e' p where
      "push_entry key e mw routes w = (routes(key \<mapsto> e'), w\<lparr>object_prototype_middleware := p\<rparr>)"
      by blast
    with a have "attach key mw routes w =
        (routes(key \<mapsto> e'),
         w\<lparr>builtin_middleware := builtin_middleware w, object_prototype_middleware := p\<rparr>)"
      by simp
    then show ?thesis by blast
  next
    assume "\<exists>b p. attach key mw routes w =
      (routes, w\<lparr>builtin_middleware := b, object_prototype_middleware := p\<rparr>)"
    then show ?thesis by blast
  qed
  then obtain r b p where "attach key mw routes w =
      (r, w\<lparr>builtin_middleware := b, object_prototype_middleware := p\<rparr>)" by blast
  then show "routes_meta (snd (attach key mw routes w)) = routes_meta w"
    and "resource_meta (snd (attach key mw routes w)) = resource_meta w" by simp_all
qed

lemma attach_other_key:
  assumes "k \<noteq> key"
  shows "fst (attach key mw routes w) k = routes k"
proof -
  from attach_shape [of key mw routes w] show ?thesis
  proof
    assume "\<exists>e. attach key mw routes w = push_entry key e mw routes w"
    then obtain e where a: "attach key mw routes w = push_entry key e mw routes w" by blast
    from push_entry_shape [of key e mw routes w] obtain e' p where
      "push_entry key e mw routes w = (routes(key \<mapsto> e'), w\<lparr>object_prototype_middleware := p\<rparr>)"
      by blast
    with a assms show ?thesis by simp
  next
    assume "\<exists>b p. attach key mw routes w =
      (routes, w\<lparr>builtin_middleware := b, object_prototype_middleware := p\<rparr>)"
    then show ?thesis by auto
  qed
qed

lemma attach_plain:
  assumes "\<not> inherited_key key" and "object_prototype_middleware w = None"
  shows "attach key mw routes w = (routes(key \<mapsto> with_group mw (routes key)), w)"
  using assms
  by (simp add: attach_def push_entry_def inherited_key_def with_group_def entry_groups_def
      empty_entry_def split: option.splits)

lemma annotate_all_meta:
  "routes_meta (snd (annotate_all keys props mw routes w)) = routes_meta w \<and>
   resource_meta (snd (annotate_all keys props mw routes w)) = resource_meta w"
proof (induction keys arbitrary: routes w)
  case Nil
  show ?case by simp
next
  case (Cons key keys)
  show ?case
  proof (cases "method_key props key")
    case True
    obtain r' w' where a: "attach key mw routes w = (r', w')" by (cases "attach key mw routes w")
    have "routes_meta w' = routes_meta w" "resource_meta w' = resource_meta w"
      using attach_meta [of key mw routes w] a by simp_all
    with Cons.IH [of r' w'] True a show ?thesis by simp
  next
    case False
    with Cons.IH show ?thesis by simp
  qed
qed

lemma annotate_all_untouched:
  "k \<notin> set (filter (method_key props) keys) \<Longrightarrow>
     fst (annotate_all keys props mw routes w) k = routes k"
proof (induction keys arbitrary: routes w)
  case Nil
  show ?case by simp
next
  case (Cons key keys)
  show ?case
  proof (cases "method_key props key")
    case True
    obtain r' w' where a: "attach key mw routes w = (r', w')" by (cases "attach key mw routes w")
    from Cons.prems True have ne: "k \<noteq> key" and rest: "k \<notin> set (filter (method_key props) keys)"
      by auto
    have "r' k = routes k" using attach_other_key [OF ne, of mw routes w] a by simp
    with Cons.IH [OF rest, of r' w'] True a show ?thesis by simp
  next
    case False
    with Cons show ?thesis by simp
  qed
qed

lemma annotate_all_plain:
  assumes "distinct keys"
    and "\<forall>k\<in>set keys. method_key props k \<longrightarrow> \<not> inherited_key k"
    and "object_prototype_middleware w = None"
  shows "annotate_all keys props mw routes w =
     ((\<lambda>k. if k \<in> set keys \<and> method_key props k then Some (with_group mw (routes k)) else routes k), w)"
  using assms
proof (induction keys arbitrary: routes)
  case Nil
  show ?case by simp
next
  case (Cons key keys)
  from Cons.prems have d: "distinct keys" and notin: "key \<notin> set keys"
    and plain: "\<forall>k\<in>set keys. method_key props k \<longrightarrow> \<not> inherited_key k" by auto
  note ih = Cons.IH [OF d plain Cons.prems(3)]
  show ?case
  proof (cases "method_key props key")
    case True
    with Cons.prems have "\<not> inherited_key key" by simp
    then have a: "attach key mw routes w = (routes(key \<mapsto> with_group mw (routes key)), w)"
      using Cons.prems(3) by (rule attach_plain)
    let ?r = "routes(key \<mapsto> with_group mw (routes key))"
    have "annotate_all (key # keys) props mw routes w = annotate_all keys props mw ?r w"
      using True a by simp
    also have "\<dots> = ((\<lambda>k. if k \<in> set keys \<and> method_key props k
                          then Some (with_group mw (?r k)) else ?r k), w)"
      by (rule ih)
    also have "(\<lambda>k. if k \<in> set keys \<and> method_key props k
                          then Some (with_group mw (?r k)) else ?r k) =
       (\<lambda>k. if k \<in> set (key # keys) \<and> method_key props k
            then Some (with_group mw (routes k)) else routes k)"
      using notin True by (auto simp: fun_eq_iff)
    finally show ?thesis .
  next
    case False
    have "annotate_all (key # keys) props mw routes w = annotate_all keys props mw routes w"
      using False by simp
    also have "\<dots> = ((\<lambda>k. if k \<in> set keys \<and> method_key props k
                          then Some (with_group mw (routes k)) else routes k), w)"
      by (rule ih)
    also have "(\<lambda>k. if k \<in> set keys \<and> method_key props k
                          then Some (with_group mw (routes k)) else routes k) =
       (\<lambda>k. if k \<in> set (key # keys) \<and> method_key props k
            then Some (with_group mw (routes k)) else routes k)"
      using False by (auto simp: fun_eq_iff)
    finally show ?thesis .
  qed
qed

lemma slot_extends_refl: "slot_extends r r"
  by (auto simp: slot_extends_def entry_extends_def split: option.splits)

lemma entry_extends_push:
  "entry_extends e (e\<lparr>middleware := Some (entry_groups e @ [mw])\<rparr>)"
  by (simp add: entry_extends_def entry_groups_def)

lemma entry_extends_refl: "entry_extends e e"
  by (auto simp: entry_extends_def)

lemma push_entry_extends:
  "\<exists>e'. fst (push_entry key e mw routes w) = routes(key \<mapsto> e') \<and> entry_extends e e'"
proof (cases "middleware e")
  case (Some groups)
  then have "fst (push_entry key e mw routes w) =
      routes(key \<mapsto> e\<lparr>middleware := Some (entry_groups e @ [mw])\<rparr>)"
    by (simp add: push_entry_def entry_groups_def)
  with entry_extends_push show ?thesis by blast
next
  case None
  show ?thesis
  proof (cases "object_prototype_middleware w")
    case None
    with \<open>middleware e = None\<close> have "fst (push_entry key e mw routes w) =
        routes(key \<mapsto> e\<lparr>middleware := Some (entry_groups e @ [mw])\<rparr>)"
      by (simp add: push_entry_def entry_groups_def)
    with entry_extends_push show ?thesis by blast
  next
    case (Some groups)
    with \<open>middleware e = None\<close> have "fst (push_entry key e mw routes w) = routes(key \<mapsto> e)"
      by (simp add: push_entry_def)
    with entry_extends_refl show ?thesis by blast
  qed
qed

lemma attach_inherited:
  assumes "routes key = None" and "inherited_key key"
  shows "fst (attach key mw routes w) = routes"
proof (cases "key \<in> set object_prototype_functions")
  case True
  with assms(1) show ?thesis by (simp add: attach_def split: option.splits)
next
  case False
  with assms have "key = ''__proto__''" by (simp add: inherited_key_def)
  with assms(1) False show ?thesis by (simp add: attach_def split: option.splits)
qed

lemma attach_cases:
  "fst (attach key mw routes w) = routes \<or>
   (\<exists>e'. fst (attach key mw routes w) = routes(key \<mapsto> e') \<and>
      (case routes key of None \<Rightarrow> True | Some e \<Rightarrow> entry_extends e e'))"
proof (cases "routes key")
  case (Some e)
  with push_entry_extends [of key e mw routes w] show ?thesis by (simp add: attach_def)
next
  case None
  show ?thesis
  proof (cases "inherited_key key")
    case True
    with None show ?thesis by (simp add: attach_inherited)
  next
    case False
    show ?thesis
    proof (cases "key = ''middleware'' \<and> object_prototype_middleware w \<noteq> None")
      case True
      with None False have "fst (attach key mw routes w) = routes"
        by (auto simp: attach_def inherited_key_def)
      then show ?thesis by simp
    next
      case shadowed: False
      with None False have "attach key mw routes w = push_entry key empty_entry mw routes w"
        by (auto simp: attach_def inherited_key_def)
      with None push_entry_extends [of key empty_entry mw routes w] show ?thesis
        by auto
    qed
  qed
qed

lemma attach_extends: "slot_extends (routes k) (fst (attach key mw routes w) k)"
proof -
  from attach_cases [of key mw routes w] show ?thesis
  proof
    assume "fst (attach key mw routes w) = routes"
    then show ?thesis by (simp add: slot_extends_refl)
  next
    assume "\<exists>e'. fst (attach key mw routes w) = routes(key \<mapsto> e') \<and>
      (case routes key of None \<Rightarrow> True | Some e \<Rightarrow> entry_extends e e')"
    then obtain e' where r: "fst (attach key mw routes w) = routes(key \<mapsto> e')"
      and e: "case routes key of None \<Rightarrow> True | Some e \<Rightarrow> entry_extends e e'" by blast
    show ?thesis
    proof (cases "k = key")
      case True
      with r e show ?thesis by (simp add: slot_extends_def split: option.splits)
    next
      case False
      with r show ?thesis by (simp add: slot_extends_refl)
    qed
  qed
qed

lemma entry_extends_trans:
  assumes "entry_extends e e'" and "entry_extends e' e''"
  shows "entry_extends e e''"
proof -
  from assms have "prefix (entry_groups e) (entry_groups e')"
    and "prefix (entry_groups e') (entry_groups e'')"
    by (simp_all add: entry_extends_def)
  then have "prefix (entry_groups e) (entry_groups e'')" by (rule prefix_order.trans)
  moreover from assms have "other e'' = other e" by (simp add: entry_extends_def)
  moreover from assms have "middleware e = None \<or> middleware e'' \<noteq> None"
    by (auto simp: entry_extends_def)
  ultimately show ?thesis by (simp add: entry_extends_def)
qed

lemma slot_extends_trans:
  assumes "slot_extends r r'" and "slot_extends r' r''"
  shows "slot_extends r r''"
proof (cases r)
  case None
  then show ?thesis by (simp add: slot_extends_def)
next
  case (Some e)
  with assms(1) obtain e' where r': "r' = Some e'" and 1: "entry_extends e e'"
    by (cases r') (simp_all add: slot_extends_def)
  with assms(2) obtain e'' where r'': "r'' = Some e''" and 2: "entry_extends e' e''"
    by (cases r'') (simp_all add: slot_extends_def)
  from entry_extends_trans [OF 1 2] Some r'' show ?thesis by (simp add: slot_extends_def)
qed

lemma annotate_all_extends:
  "slot_extends (routes k) (fst (annotate_all keys props mw routes w) k)"
proof (induction keys arbitrary: routes w)
  case Nil
  show ?case by (simp add: slot_extends_refl)
next
  case (Cons key keys)
  show ?case
  proof (cases "method_key props key")
    case True
    obtain r' w' where a: "attach key mw routes w = (r', w')" by (cases "attach key mw routes w")
    have "slot_extends (routes k) (r' k)" using attach_extends [of routes k key mw w] a by simp
    moreover have "slot_extends (r' k) (fst (annotate_all keys props mw r' w') k)" by (rule Cons.IH)
    ultimately have "slot_extends (routes k) (fst (annotate_all keys props mw r' w') k)"
      by (rule slot_extends_trans)
    with True a show ?thesis by simp
  next
    case False
    with Cons.IH [of routes w] show ?thesis by simp
  qed
qed

lemma annotate_all_none:
  "filter (method_key props) keys = [] \<Longrightarrow> annotate_all keys props mw routes w = (routes, w)"
  by (induction keys) (auto split: if_splits)

lemma attach_keeps_prototype:
  assumes "key \<noteq> ''__proto__''" and "object_prototype_middleware w = None"
  shows "object_prototype_middleware (snd (attach key mw routes w)) = None"
proof (cases "routes key")
  case (Some e)
  with assms(2) show ?thesis by (simp add: attach_def push_entry_def split: option.splits)
next
  case None
  show ?thesis
  proof (cases "key \<in> set object_prototype_functions")
    case True
    with None assms(2) show ?thesis by (simp add: attach_def split: option.splits)
  next
    case False
    with None assms show ?thesis
      by (simp add: attach_def push_entry_def empty_entry_def)
  qed
qed

lemma annotate_all_keeps_prototype:
  assumes "''__proto__'' \<notin> set (filter (method_key props) keys)"
    and "object_prototype_middleware w = None"
  shows "object_prototype_middleware (snd (annotate_all keys props mw routes w)) = None"
  using assms
proof (induction keys arbitrary: routes w)
  case Nil
  then show ?case by simp
next
  case (Cons k keys)
  show ?case
  proof (cases "method_key props k")
    case True
    obtain r' w' where a: "attach k mw routes w = (r', w')" by (cases "attach k mw routes w")
    from Cons.prems(1) True have ne: "k \<noteq> ''__proto__''"
      and rest: "''__proto__'' \<notin> set (filter (method_key props) keys)" by auto
    have "object_prototype_middleware w' = None"
      using attach_keeps_prototype [OF ne Cons.prems(2), of mw routes] a by simp
    from Cons.IH [OF rest this, of r'] True a show ?thesis by simp
  next
    case False
    with Cons.prems have rest: "''__proto__'' \<notin> set (filter (method_key props) keys)" by simp
    from Cons.IH [OF rest Cons.prems(2), of routes] False show ?thesis by simp
  qed
qed

lemma annotate_all_key:
  assumes "distinct keys"
    and "''__proto__'' \<notin> set (filter (method_key props) keys)"
    and "object_prototype_middleware w = None"
    and "key \<in> set keys" and "method_key props key" and "\<not> inherited_key key"
  shows "fst (annotate_all keys props mw routes w) key = Some (with_group mw (routes key))"
  using assms(1-4)
proof (induction keys arbitrary: routes w)
  case Nil
  then show ?case by simp
next
  case (Cons k keys)
  from Cons.prems(1) have d: "distinct keys" and notin: "k \<notin> set keys" by simp_all
  show ?case
  proof (cases "method_key props k")
    case True
    obtain r' w' where a: "attach k mw routes w = (r', w')" by (cases "attach k mw routes w")
    from Cons.prems(2) True have ne: "k \<noteq> ''__proto__''"
      and rest: "''__proto__'' \<notin> set (filter (method_key props) keys)" by auto
    have w': "object_prototype_middleware w' = None"
      using attach_keeps_prototype [OF ne Cons.prems(3), of mw routes] a by simp
    show ?thesis
    proof (cases "k = key")
      case same: True
      with notin have "key \<notin> set (filter (method_key props) keys)" by simp
      then have "fst (annotate_all keys props mw r' w') key = r' key"
        by (rule annotate_all_untouched)
      moreover have "r' key = Some (with_group mw (routes key))"
      proof -
        have "attach key mw routes w = (routes(key \<mapsto> with_group mw (routes key)), w)"
          using assms(6) Cons.prems(3) by (rule attach_plain)
        with a same have "r' = routes(key \<mapsto> with_group mw (routes key))" by simp
        then show ?thesis by simp
      qed
      ultimately show ?thesis using True a by simp
    next
      case other: False
      with Cons.prems(4) have mem: "key \<in> set keys" by simp
      from other have "key \<noteq> k" by simp
      then have "r' key = routes key"
        using attach_other_key [of key k mw routes w] a by simp
      with Cons.IH [OF d rest w' mem, of r'] True a show ?thesis by simp
    qed
  next
    case False
    with assms(5) have "k \<noteq> key" by auto
    with Cons.prems(4) have mem: "key \<in> set keys" by simp
    from Cons.prems(2) False have rest: "''__proto__'' \<notin> set (filter (method_key props) keys)"
      by simp
    from Cons.IH [OF d rest Cons.prems(3) mem, of routes] False show ?thesis by simp
  qed
qed

subsection \<open>The decorators and the store\<close>

lemma GroupMiddleware_plain:
  assumes "distinct (getOwnPropertyNames (prototype target))"
    and "\<forall>k\<in>set (own_methods (prototype target)). \<not> inherited_key k"
    and "object_prototype_middleware w = None"
  shows "GroupMiddleware mw target w =
     w\<lparr>routes_meta := (routes_meta w)(class_id target \<mapsto>
          (\<lambda>k. if k \<in> set (own_methods (prototype target))
               then Some (with_group mw (route_of w (class_id target) k))
               else route_of w (class_id target) k))\<rparr>"
proof -
  let ?keys = "getOwnPropertyNames (prototype target)"
  let ?routes = "routes_or_new w (class_id target)"
  have plain: "\<forall>k\<in>set ?keys. method_key (prototype target) k \<longrightarrow> \<not> inherited_key k"
    using assms(2) by (simp add: own_methods_def)
  have r: "route_of w (class_id target) = ?routes"
    by (simp add: route_of_def routes_or_new_def fun_eq_iff split: option.splits)
  have m: "\<And>k. k \<in> set (own_methods (prototype target)) \<longleftrightarrow>
              k \<in> set ?keys \<and> method_key (prototype target) k"
    by (simp add: own_methods_def)
  show ?thesis
    unfolding GroupMiddleware_def annotate_all_plain [OF assms(1) plain assms(3)] r m
    by simp
qed

lemma route_of_routes_or_new: "route_of w c key = routes_or_new w c key"
  by (simp add: route_of_def routes_or_new_def split: option.splits)

lemma GroupMiddleware_route_of:
  "route_of (GroupMiddleware mw target w) c key =
     (if c = class_id target
      then fst (annotate_all (getOwnPropertyNames (prototype target)) (prototype target) mw
                  (routes_or_new w (class_id target)) w) key
      else route_of w c key)"
proof -
  obtain r' w' where a: "annotate_all (getOwnPropertyNames (prototype target)) (prototype target) mw
                  (routes_or_new w (class_id target)) w = (r', w')"
    by (cases "annotate_all (getOwnPropertyNames (prototype target)) (prototype target) mw
                  (routes_or_new w (class_id target)) w")
  have "routes_meta w' = routes_meta w"
    using annotate_all_meta [of "getOwnPropertyNames (prototype target)" "prototype target" mw
        "routes_or_new w (class_id target)" w] a by simp
  then show ?thesis by (simp add: GroupMiddleware_def a route_of_def)
qed

lemma GroupMiddleware_resource_meta:
  "resource_meta (GroupMiddleware mw target w) = resource_meta w"
proof -
  obtain r' w' where a: "annotate_all (getOwnPropertyNames (prototype target)) (prototype target) mw
                  (routes_or_new w (class_id target)) w = (r', w')"
    by (cases "annotate_all (getOwnPropertyNames (prototype target)) (prototype target) mw
                  (routes_or_new w (class_id target)) w")
  have "resource_meta w' = resource_meta w"
    using annotate_all_meta [of "getOwnPropertyNames (prototype target)" "prototype target" mw
        "routes_or_new w (class_id target)" w] a by simp
  then show ?thesis by (simp add: GroupMiddleware_def a)
qed

lemma RouteMiddleware_route_of:
  "route_of (RouteMiddleware mw ctor key w) c k =
     (if c = class_id ctor then fst (attach key mw (routes_or_new w (class_id ctor)) w) k
      else route_of w c k)"
proof -
  obtain r' w' where a: "attach key mw (routes_or_new w (class_id ctor)) w = (r', w')"
    by (cases "attach key mw (routes_or_new w (class_id ctor)) w")
  have "routes_meta w' = routes_meta w"
    using attach_meta(1) [of key mw "routes_or_new w (class_id ctor)" w] a by simp
  then show ?thesis by (simp add: RouteMiddleware_def a route_of_def)
qed

lemma RouteMiddleware_resource_meta:
  "resource_meta (RouteMiddleware mw ctor key w) = resource_meta w"
proof -
  obtain r' w' where a: "attach key mw (routes_or_new w (class_id ctor)) w = (r', w')"
    by (cases "attach key mw (routes_or_new w (class_id ctor)) w")
  have "resource_meta w' = resource_meta w"
    using attach_meta(2) [of key mw "routes_or_new w (class_id ctor)" w] a by simp
  then show ?thesis by (simp add: RouteMiddleware_def a)
qed

lemma ResourceMiddleware_route_of:
  "route_of (ResourceMiddleware actions mw target w) c key = route_of w c key"
  by (simp add: ResourceMiddleware_def route_of_def)

lemma ResourceMiddleware_resources_of:
  "resources_of (ResourceMiddleware actions mw target w) c =
     (if c = class_id target
      then resources_of w c @ [\<lparr>res_actions = actions, res_middleware = mw\<rparr>]
      else resources_of w c)"
  by (simp add: ResourceMiddleware_def resources_of_def)

lemma RouteMiddleware_plain:
  assumes "\<not> inherited_key key" and "object_prototype_middleware w = None"
  shows "RouteMiddleware mw ctor key w =
     w\<lparr>routes_meta := (routes_meta w)(class_id ctor \<mapsto>
          (routes_or_new w (class_id ctor))(key \<mapsto> with_group mw (route_of w (class_id ctor) key)))\<rparr>"
  by (simp add: RouteMiddleware_def attach_plain [OF assms] route_of_routes_or_new)

lemma middleware_with_group:
  "middleware (with_group mw (route_of w c key)) = Some (groups_of w c key @ [mw])"
  by (simp add: with_group_def groups_of_def middleware_of_def entry_groups_def empty_entry_def
      split: option.splits)

lemma annotate_route_extends:
  "slot_extends (route_of w c key) (route_of (annotate a w) c key)"
proof (cases a)
  case (Group mw target)
  then show ?thesis
    using annotate_all_extends [of "routes_or_new w (class_id target)" key
        "getOwnPropertyNames (prototype target)" "prototype target" mw w]
    by (simp add: GroupMiddleware_route_of slot_extends_refl route_of_routes_or_new [symmetric])
next
  case (Route mw ctor k)
  then show ?thesis
    using attach_extends [of "routes_or_new w (class_id ctor)" key k mw w]
    by (simp add: RouteMiddleware_route_of slot_extends_refl route_of_routes_or_new [symmetric])
next
  case (Resource actions mw target)
  then show ?thesis by (simp add: ResourceMiddleware_route_of slot_extends_refl)
qed

lemma annotate_untargeted:
  assumes "key \<notin> set (targeted a)"
  shows "route_of (annotate a w) c key = route_of w c key"
proof (cases a)
  case (Group mw target)
  with assms have "key \<notin> set (filter (method_key (prototype target)) (getOwnPropertyNames (prototype target)))"
    by (simp add: own_methods_def)
  from annotate_all_untouched [OF this, of mw "routes_or_new w (class_id target)" w] Group
  show ?thesis
    by (simp add: GroupMiddleware_route_of route_of_routes_or_new [symmetric])
next
  case (Route mw ctor k)
  with assms have "key \<noteq> k" by simp
  from attach_other_key [OF this, of mw "routes_or_new w (class_id ctor)" w] Route
  show ?thesis
    by (simp add: RouteMiddleware_route_of route_of_routes_or_new [symmetric])
next
  case (Resource actions mw target)
  then show ?thesis by (simp add: ResourceMiddleware_route_of)
qed

lemma annotate_resources_prefix:
  "prefix (resources_of w c) (resources_of (annotate a w) c)"
proof (cases a)
  case (Group mw target)
  then show ?thesis by (simp add: resources_of_def GroupMiddleware_resource_meta)
next
  case (Route mw ctor k)
  then show ?thesis by (simp add: resources_of_def RouteMiddleware_resource_meta)
next
  case (Resource actions mw target)
  then show ?thesis by (simp add: ResourceMiddleware_resources_of)
qed

lemma slot_extends_groups:
  assumes "slot_extends (route_of w c key) (route_of w' c key)"
  shows "prefix (groups_of w c key) (groups_of w' c key)"
proof (cases "route_of w c key")
  case None
  then show ?thesis by (simp add: groups_of_def middleware_of_def)
next
  case (Some e)
  with assms obtain e' where e': "route_of w' c key = Some e'" and ext: "entry_extends e e'"
    by (cases "route_of w' c key") (simp_all add: slot_extends_def)
  from ext have "prefix (entry_groups e) (entry_groups e')" by (simp add: entry_extends_def)
  with Some e' show ?thesis
    by (simp add: groups_of_def middleware_of_def entry_groups_def)
qed

lemma slot_extends_entry:
  assumes "slot_extends (route_of w c key) (route_of w' c key)"
    and "route_of w c key = Some e"
  shows "\<exists>e'. route_of w' c key = Some e' \<and> other e' = other e \<and>
           (middleware e = None \<or> middleware e' \<noteq> None)"
proof -
  from assms obtain e' where e': "route_of w' c key = Some e'" and ext: "entry_extends e e'"
    by (cases "route_of w' c key") (simp_all add: slot_extends_def)
  from ext have "other e' = other e" and "middleware e = None \<or> middleware e' \<noteq> None"
    by (simp_all add: entry_extends_def)
  with e' show ?thesis by simp
qed

subsection \<open>Method names that \<open>Object.prototype\<close> does not define\<close>

text \<open>
  For a method name that is not a property of \<open>Object.prototype\<close>, and while
  \<open>Object.prototype\<close> has no \<open>middleware\<close> property, both decorators append the
  group to the array of the entry, creating the entry and the array when needed. For
  \<open>GroupMiddleware\<close> the other methods of the class may have any name but
  \<open>__proto__\<close>: annotating a method of that name gives \<open>Object.prototype\<close> a
  \<open>middleware\<close> property in the middle of the loop.
\<close>

lemma GroupMiddleware_appends:
  assumes "distinct (getOwnPropertyNames (prototype target))"
    and "''__proto__'' \<notin> set (own_methods (prototype target))"
    and "object_prototype_middleware w = None"
    and "key \<in> set (own_methods (prototype target))"
    and "\<not> inherited_key key"
  shows "middleware_of (GroupMiddleware mw target w) (class_id target) key =
           Some (groups_of w (class_id target) key @ [mw])"
proof -
  let ?keys = "getOwnPropertyNames (prototype target)"
  from assms(2) have p: "''__proto__'' \<notin> set (filter (method_key (prototype target)) ?keys)"
    by (simp add: own_methods_def)
  from assms(4) have mem: "key \<in> set ?keys" and m: "method_key (prototype target) key"
    by (simp_all add: own_methods_def)
  have "route_of (GroupMiddleware mw target w) (class_id target) key =
      Some (with_group mw (routes_or_new w (class_id target) key))"
    using annotate_all_key [OF assms(1) p assms(3) mem m assms(5), of mw
        "routes_or_new w (class_id target)"]
    by (simp add: GroupMiddleware_route_of)
  then show ?thesis
    by (simp add: middleware_of_def middleware_with_group [unfolded route_of_routes_or_new])
qed

lemma GroupMiddleware_skips_constructor:
  "route_of (GroupMiddleware mw target w) c ''constructor'' = route_of w c ''constructor''"
proof -
  have "''constructor'' \<notin> set (targeted (Group mw target))"
    by (simp add: own_methods_def method_key_def)
  from annotate_untargeted [OF this, of w c] show ?thesis by simp
qed

lemma RouteMiddleware_appends:
  assumes "\<not> inherited_key key" and "object_prototype_middleware w = None"
  shows "middleware_of (RouteMiddleware mw ctor key w) (class_id ctor) key =
           Some (groups_of w (class_id ctor) key @ [mw])"
  by (simp add: RouteMiddleware_plain [OF assms] middleware_of_def route_of_def
      middleware_with_group [unfolded route_of_def])

lemma RouteMiddleware_keeps_prototype:
  assumes "\<not> inherited_key key" and "object_prototype_middleware w = None"
  shows "object_prototype_middleware (RouteMiddleware mw ctor key w) = None"
  using assms(2) by (simp add: RouteMiddleware_plain [OF assms])

lemma GroupMiddleware_keeps_prototype:
  assumes "''__proto__'' \<notin> set (own_methods (prototype target))"
    and "object_prototype_middleware w = None"
  shows "object_prototype_middleware (GroupMiddleware mw target w) = None"
proof -
  let ?keys = "getOwnPropertyNames (prototype target)"
  obtain r' w' where a: "annotate_all ?keys (prototype target) mw
      (routes_or_new w (class_id target)) w = (r', w')"
    by (cases "annotate_all ?keys (prototype target) mw (routes_or_new w (class_id target)) w")
  from assms(1) have "''__proto__'' \<notin> set (filter (method_key (prototype target)) ?keys)"
    by (simp add: own_methods_def)
  from annotate_all_keeps_prototype [OF this assms(2), of mw "routes_or_new w (class_id target)"] a
  have "object_prototype_middleware w' = None" by simp
  then show ?thesis by (simp add: GroupMiddleware_def a)
qed

lemma groups_of_Some: "middleware_of w c key = Some groups \<Longrightarrow> groups_of w c key = groups"
  by (simp add: groups_of_def)

lemma RouteMiddleware_twice_appends:
  assumes "\<not> inherited_key key" and "object_prototype_middleware w = None"
  shows "middleware_of (RouteMiddleware S2 ctor key (RouteMiddleware S1 ctor key w)) (class_id ctor) key =
           Some (groups_of w (class_id ctor) key @ [S1, S2])"
proof -
  let ?w1 = "RouteMiddleware S1 ctor key w"
  have 1: "groups_of ?w1 (class_id ctor) key = groups_of w (class_id ctor) key @ [S1]"
    using RouteMiddleware_appends [OF assms] by (rule groups_of_Some)
  have "object_prototype_middleware ?w1 = None"
    using assms by (rule RouteMiddleware_keeps_prototype)
  from RouteMiddleware_appends [OF assms(1) this] 1 show ?thesis by simp
qed

lemma route_then_group_appends:
  assumes "distinct (getOwnPropertyNames (prototype target))"
    and "''__proto__'' \<notin> set (own_methods (prototype target))"
    and "object_prototype_middleware w = None"
    and "key \<in> set (own_methods (prototype target))"
    and "\<not> inherited_key key"
    and "middleware_of w (class_id target) key = None"
  shows "middleware_of (GroupMiddleware S_group target (RouteMiddleware S_route target key w))
           (class_id target) key = Some [S_route, S_group]"
proof -
  let ?w1 = "RouteMiddleware S_route target key w"
  from assms(6) have "groups_of w (class_id target) key = []" by (simp add: groups_of_def)
  with RouteMiddleware_appends [OF assms(5) assms(3), of S_route target]
  have 1: "groups_of ?w1 (class_id target) key = [S_route]" by (simp add: groups_of_def)
  have 2: "object_prototype_middleware ?w1 = None"
    using assms(5) assms(3) by (rule RouteMiddleware_keeps_prototype)
  from GroupMiddleware_appends [OF assms(1,2) 2 assms(4,5)] 1 show ?thesis by simp
qed

lemma GroupMiddleware_twice_appends:
  assumes "distinct (getOwnPropertyNames (prototype target))"
    and "''__proto__'' \<notin> set (own_methods (prototype target))"
    and "object_prototype_middleware w = None"
    and "key \<in> set (own_methods (prototype target))"
    and "\<not> inherited_key key"
  shows "middleware_of (GroupMiddleware S target (GroupMiddleware S target w)) (class_id target) key =
           Some (groups_of w (class_id target) key @ [S, S])"
proof -
  let ?w1 = "GroupMiddleware S target w"
  have 1: "groups_of ?w1 (class_id target) key = groups_of w (class_id target) key @ [S]"
    using GroupMiddleware_appends [OF assms] by (rule groups_of_Some)
  have 2: "object_prototype_middleware ?w1 = None"
    using assms(2,3) by (rule GroupMiddleware_keeps_prototype)
  from GroupMiddleware_appends [OF assms(1,2) 2 assms(4,5)] 1 show ?thesis by simp
qed

subsection \<open>The sample controllers\<close>

lemma posts_methods: "own_methods (prototype posts_controller) = [''index'', ''store'']"
  by (simp add: own_methods_def posts_controller_def getOwnPropertyNames_def method_key_def
      prop_get_def)

lemma posts_names:
  "getOwnPropertyNames (prototype posts_controller) = [''constructor'', ''index'', ''store'', ''version'']"
  by (simp add: posts_controller_def getOwnPropertyNames_def)

lemma plain_names: "\<not> inherited_key ''index''" "\<not> inherited_key ''store''" "\<not> inherited_key ''show''"
  by (simp_all add: inherited_key_def object_prototype_functions_def)

lemma reports_methods: "own_methods (prototype reports_controller) = [''index'', ''toString'']"
  by (simp add: own_methods_def reports_controller_def getOwnPropertyNames_def method_key_def
      prop_get_def)

lemma reports_names:
  "getOwnPropertyNames (prototype reports_controller) = [''constructor'', ''index'', ''toString'']"
  by (simp add: reports_controller_def getOwnPropertyNames_def)

lemma empty_methods: "own_methods (prototype empty_controller) = []"
  by (simp add: own_methods_def empty_controller_def getOwnPropertyNames_def method_key_def)

lemma route_index_fresh:
  "route_of (RouteMiddleware (One ''auth'') posts_controller ''index'' (fresh_world :: string world))
     0 ''index'' = Some \<lparr>middleware = Some [One ''auth''], other = Map.empty\<rparr>"
  by (simp add: RouteMiddleware_def posts_controller_def attach_def push_entry_def
      routes_or_new_def fresh_world_def object_prototype_functions_def empty_entry_def
      route_of_def)

lemma route_show_fresh:
  "route_of (RouteMiddleware (One ''auth'') posts_controller ''show'' (fresh_world :: string world))
     0 ''show'' = Some \<lparr>middleware = Some [One ''auth''], other = Map.empty\<rparr>"
  by (simp add: RouteMiddleware_def posts_controller_def attach_def push_entry_def
      routes_or_new_def fresh_world_def object_prototype_functions_def empty_entry_def
      route_of_def)

lemma route_version_fresh:
  "route_of (RouteMiddleware (One ''auth'') posts_controller ''version'' (fresh_world :: string world))
     0 ''version'' = Some \<lparr>middleware = Some [One ''auth''], other = Map.empty\<rparr>"
  by (simp add: RouteMiddleware_def posts_controller_def attach_def push_entry_def
      routes_or_new_def fresh_world_def object_prototype_functions_def empty_entry_def
      route_of_def)

lemmas eval_defs = GroupMiddleware_def RouteMiddleware_def reports_controller_def
  labels_controller_def getOwnPropertyNames_def method_key_def prop_get_def attach_def
  push_entry_def routes_or_new_def fresh_world_def object_prototype_functions_def
  empty_entry_def middleware_of_def route_of_def

section \<open>The claims\<close>

text \<open>
  Claim C1: for every controller class with own methods \<open>m1..mn\<close> other than the
  constructor, \<open>GroupMiddleware\<close> with \<open>S\<close> leaves each method's middleware list equal
  to its previous list with \<open>S\<close> appended (a list \<open>[S]\<close> where there was none), and creates
  no entry for \<open>constructor\<close>.

  The code does this for \<open>index\<close> but not for a method named \<open>toString\<close>:
  \<open>routes['toString']\<close> is the inherited \<open>Object.prototype.toString\<close>, which is truthy,
  so no entry is created, and \<open>S\<close> is attached to that built-in function instead. For
  \<^verbatim>\<open>@GroupMiddleware(['auth']) class ReportsController { index() {} toString() {} }\<close>
  the stored routes object has the entry \<open>index\<close> and no entry \<open>toString\<close>.
  (\<open>GroupMiddleware_appends\<close> and \<open>GroupMiddleware_skips_constructor\<close> above are the claim
  for the names \<open>Object.prototype\<close> does not define.)
\<close>

theorem GroupMiddleware_toString_unrecorded:
  "middleware_of (GroupMiddleware (More [''auth'']) reports_controller (fresh_world :: string world))
     1 ''index'' = Some [More [''auth'']] \<and>
   route_of (GroupMiddleware (More [''auth'']) reports_controller (fresh_world :: string world))
     1 ''toString'' = None \<and>
   builtin_middleware
     (GroupMiddleware (More [''auth'']) reports_controller (fresh_world :: string world))
     ''toString'' = Some [More [''auth'']]"
  by (simp add: eval_defs)

lemma toString_groups_shared_between_classes:
  "routes_meta (GroupMiddleware (One ''auth'') labels_controller (fresh_world :: string world)) 1 = None \<and>
   builtin_middleware
     (GroupMiddleware (One ''log'') reports_controller
       (GroupMiddleware (One ''auth'') labels_controller (fresh_world :: string world)))
     ''toString'' = Some [One ''auth'', One ''log'']"
  by (simp add: eval_defs)

text \<open>
  Claim C2: for every class, method key \<open>m\<close>, prior state and specs \<open>S1\<close>, \<open>S2\<close>,
  \<open>RouteMiddleware\<close> applied to \<open>m\<close> with \<open>S1\<close> and then with \<open>S2\<close> leaves the middleware
  list of \<open>m\<close> equal to the prior list followed by \<open>S1\<close>, \<open>S2\<close>.

  For \<open>m = toString\<close> and a class without metadata the stored routes object has no entry
  for \<open>m\<close> after the two calls; both groups are on \<open>Object.prototype.toString\<close>.
  (\<open>RouteMiddleware_twice_appends\<close> above is the claim for the other names.)
\<close>

theorem RouteMiddleware_twice_toString_unrecorded:
  "route_of
     (RouteMiddleware (One ''log'') labels_controller ''toString''
       (RouteMiddleware (One ''auth'') labels_controller ''toString'' (fresh_world :: string world)))
     2 ''toString'' = None \<and>
   builtin_middleware
     (RouteMiddleware (One ''log'') labels_controller ''toString''
       (RouteMiddleware (One ''auth'') labels_controller ''toString'' (fresh_world :: string world)))
     ''toString'' = Some [One ''auth'', One ''log'']"
  by (simp add: eval_defs)

text \<open>
  Claim C3: for a class with method \<open>m\<close> and no prior metadata, \<open>RouteMiddleware\<close> on
  \<open>m\<close> with \<open>S_route\<close> followed by \<open>GroupMiddleware\<close> on the class with \<open>S_group\<close>
  leaves the middleware list of \<open>m\<close> equal to \<open>[S_route, S_group]\<close>.

  For \<open>m = toString\<close> the stored routes object has no entry for \<open>m\<close>; the two groups are
  on \<open>Object.prototype.toString\<close>. (\<open>route_then_group_appends\<close> above is the claim for
  the other names.)
\<close>

theorem route_then_group_toString_unrecorded:
  "middleware_of
     (GroupMiddleware (One ''log'') reports_controller
       (RouteMiddleware (One ''auth'') reports_controller ''toString'' (fresh_world :: string world)))
     1 ''toString'' = None \<and>
   builtin_middleware
     (GroupMiddleware (One ''log'') reports_controller
       (RouteMiddleware (One ''auth'') reports_controller ''toString'' (fresh_world :: string world)))
     ''toString'' = Some [One ''auth'', One ''log'']"
  by (simp add: eval_defs)

text \<open>
  Claim C4: on a controller without resource metadata, \<open>ResourceMiddleware\<close> with
  \<open>(['store'], S1)\<close> and then with \<open>(['store', 'update'], S2)\<close> yields the list of exactly
  these two records, in this order; records are never merged, whatever their actions
  (the theorem holds for any two \<open>actions\<close> arguments, equal ones included).
\<close>

theorem ResourceMiddleware_twice_two_records:
  assumes "resource_meta w (class_id target) = None"
  shows "resource_meta
           (ResourceMiddleware actions2 S2 target (ResourceMiddleware actions1 S1 target w))
           (class_id target) =
         Some [\<lparr>res_actions = actions1, res_middleware = S1\<rparr>,
               \<lparr>res_actions = actions2, res_middleware = S2\<rparr>]"
  using assms by (simp add: ResourceMiddleware_def resources_of_def)

theorem ResourceMiddleware_twice_two_records_witness:
  "resource_meta (fresh_world :: string world) (class_id posts_controller) = None \<and>
   resource_meta
     (ResourceMiddleware (ActionList [''store'', ''update'']) (One ''throttle'') posts_controller
       (ResourceMiddleware (ActionList [''store'']) (One ''auth'') posts_controller
         (fresh_world :: string world)))
     (class_id posts_controller) =
   Some [\<lparr>res_actions = ActionList [''store''], res_middleware = One ''auth''\<rparr>,
         \<lparr>res_actions = ActionList [''store'', ''update''], res_middleware = One ''throttle''\<rparr>]"
proof -
  have h: "resource_meta (fresh_world :: string world) (class_id posts_controller) = None"
    by (simp add: fresh_world_def)
  from ResourceMiddleware_twice_two_records [OF h] h show ?thesis by simp
qed

text \<open>
  Claim C5: \<open>GroupMiddleware\<close> is not idempotent: applied twice with the same \<open>S\<close>
  to a class with an own method, it leaves each such method with two groups \<open>S\<close> at the
  end of its middleware list.

  For \<^verbatim>\<open>class LabelsController { toString() {} }\<close> the only method has no middleware
  list in the stored routes object after the two calls; the two groups are on
  \<open>Object.prototype.toString\<close>. (\<open>GroupMiddleware_twice_appends\<close> above is the claim for
  the other names.)
\<close>

theorem GroupMiddleware_twice_toString_unrecorded:
  "own_methods (prototype labels_controller) = [''toString''] \<and>
   middleware_of
     (GroupMiddleware (One ''auth'') labels_controller
       (GroupMiddleware (One ''auth'') labels_controller (fresh_world :: string world)))
     2 ''toString'' = None \<and>
   builtin_middleware
     (GroupMiddleware (One ''auth'') labels_controller
       (GroupMiddleware (One ''auth'') labels_controller (fresh_world :: string world)))
     ''toString'' = Some [One ''auth'', One ''auth'']"
  by (simp add: eval_defs own_methods_def)

text \<open>
  Claim C6: each of the three decorators is append-only on the metadata store. For every
  prior state, class and method name: the groups recorded for the method are the first
  groups of its list afterwards, the resource records of the class are the first records of
  its list afterwards, an entry stays an entry with its other fields, an array stays an
  array, and the entry of a method name the operation is not aimed at is unchanged.
\<close>

theorem annotate_append_only:
  "prefix (groups_of w c key) (groups_of (annotate a w) c key) \<and>
   prefix (resources_of w c) (resources_of (annotate a w) c) \<and>
   (\<forall>e. route_of w c key = Some e \<longrightarrow>
      (\<exists>e'. route_of (annotate a w) c key = Some e' \<and> other e' = other e)) \<and>
   (middleware_of w c key \<noteq> None \<longrightarrow> middleware_of (annotate a w) c key \<noteq> None) \<and>
   (key \<notin> set (targeted a) \<longrightarrow> route_of (annotate a w) c key = route_of w c key)"
proof -
  have ext: "slot_extends (route_of w c key) (route_of (annotate a w) c key)"
    by (rule annotate_route_extends)
  have 1: "prefix (groups_of w c key) (groups_of (annotate a w) c key)"
    using ext by (rule slot_extends_groups)
  have 2: "prefix (resources_of w c) (resources_of (annotate a w) c)"
    by (rule annotate_resources_prefix)
  have 3: "\<forall>e. route_of w c key = Some e \<longrightarrow>
      (\<exists>e'. route_of (annotate a w) c key = Some e' \<and> other e' = other e)"
  proof (intro allI impI)
    fix e
    assume "route_of w c key = Some e"
    from slot_extends_entry [OF ext this]
    show "\<exists>e'. route_of (annotate a w) c key = Some e' \<and> other e' = other e" by blast
  qed
  have 4: "middleware_of w c key \<noteq> None \<longrightarrow> middleware_of (annotate a w) c key \<noteq> None"
  proof
    assume m: "middleware_of w c key \<noteq> None"
    then obtain e where e: "route_of w c key = Some e" and me: "middleware e \<noteq> None"
      by (cases "route_of w c key") (simp_all add: middleware_of_def)
    from slot_extends_entry [OF ext e] me
    show "middleware_of (annotate a w) c key \<noteq> None"
      by (auto simp: middleware_of_def)
  qed
  have 5: "key \<notin> set (targeted a) \<longrightarrow> route_of (annotate a w) c key = route_of w c key"
    by (simp add: annotate_untargeted)
  from 1 2 3 4 5 show ?thesis by (intro conjI)
qed

theorem annotate_append_only_witness:
  "route_of (RouteMiddleware (One ''auth'') posts_controller ''index'' (fresh_world :: string world))
     0 ''index'' = Some \<lparr>middleware = Some [One ''auth''], other = Map.empty\<rparr> \<and>
   ''index'' \<notin> set (targeted (Route (One ''log'') posts_controller ''store'')) \<and>
   route_of (annotate (Route (One ''log'') posts_controller ''store'')
       (RouteMiddleware (One ''auth'') posts_controller ''index'' (fresh_world :: string world)))
     0 ''index'' = Some \<lparr>middleware = Some [One ''auth''], other = Map.empty\<rparr> \<and>
   prefix [One ''auth'']
     (groups_of (annotate (Route (One ''log'') posts_controller ''index'')
        (RouteMiddleware (One ''auth'') posts_controller ''index'' (fresh_world :: string world)))
      0 ''index'')"
proof -
  let ?w = "RouteMiddleware (One ''auth'') posts_controller ''index'' (fresh_world :: string world)"
  have g: "groups_of ?w 0 ''index'' = [One ''auth'']"
    by (simp add: groups_of_def middleware_of_def route_index_fresh)
  have t: "''index'' \<notin> set (targeted (Route (One ''log'') posts_controller ''store''))"
    by simp
  from annotate_append_only [of ?w 0 "''index''" "Route (One ''log'') posts_controller ''store''"]
    annotate_append_only [of ?w 0 "''index''" "Route (One ''log'') posts_controller ''index''"]
    g t route_index_fresh
  show ?thesis by simp
qed

text \<open>
  Claim C7, as amended: on a class without own methods besides the constructor,
  \<open>GroupMiddleware\<close> changes no entry of any class; its only effect is that the routes
  metadata of the class is defined afterwards, as the routes object found or as a new empty
  one. What \<open>Reflect.getMetadata(...) || {}\<close> reads is the same before and after.
\<close>

theorem GroupMiddleware_no_methods:
  assumes "own_methods (prototype target) = []"
  shows "GroupMiddleware mw target w =
           w\<lparr>routes_meta := (routes_meta w)(class_id target \<mapsto> routes_or_new w (class_id target))\<rparr> \<and>
         routes_or_new (GroupMiddleware mw target w) c = routes_or_new w c"
proof -
  from assms have "filter (method_key (prototype target)) (getOwnPropertyNames (prototype target)) = []"
    by (simp add: own_methods_def)
  then have "annotate_all (getOwnPropertyNames (prototype target)) (prototype target) mw
      (routes_or_new w (class_id target)) w = (routes_or_new w (class_id target), w)"
    by (rule annotate_all_none)
  then have 1: "GroupMiddleware mw target w =
      w\<lparr>routes_meta := (routes_meta w)(class_id target \<mapsto> routes_or_new w (class_id target))\<rparr>"
    by (simp add: GroupMiddleware_def)
  have "routes_or_new (w\<lparr>routes_meta := (routes_meta w)(class_id target \<mapsto> routes_or_new w (class_id target))\<rparr>) c
      = routes_or_new w c"
    by (simp add: routes_or_new_def)
  with 1 show ?thesis by simp
qed

theorem GroupMiddleware_no_methods_witness:
  "own_methods (prototype empty_controller) = [] \<and>
   GroupMiddleware (One ''auth'') empty_controller (fresh_world :: string world) =
     fresh_world\<lparr>routes_meta := [3 \<mapsto> Map.empty]\<rparr> \<and>
   routes_or_new (GroupMiddleware (One ''auth'') empty_controller (fresh_world :: string world)) 3 =
     routes_or_new (fresh_world :: string world) 3"
proof -
  have r: "routes_or_new (fresh_world :: string world) 3 = Map.empty"
    by (simp add: routes_or_new_def fresh_world_def)
  have c: "class_id empty_controller = 3" by (simp add: empty_controller_def)
  have m: "routes_meta (fresh_world :: string world) = Map.empty" by (simp add: fresh_world_def)
  from GroupMiddleware_no_methods [OF empty_methods, of "One ''auth''" "fresh_world :: string world" 3]
    empty_methods show ?thesis by (simp add: r c m routes_or_new_def)
qed

text \<open>
  The claim as stated (the call is a no-op, and no routes record comes into existence) fails:
  \<^verbatim>\<open>@GroupMiddleware('auth') class EmptyController {}\<close> has no routes metadata
  before the call and an empty routes object after it.
\<close>

theorem GroupMiddleware_no_methods_defines_record:
  "own_methods (prototype empty_controller) = [] \<and>
   routes_meta (fresh_world :: string world) (class_id empty_controller) = None \<and>
   routes_meta (GroupMiddleware (One ''auth'') empty_controller (fresh_world :: string world))
     (class_id empty_controller) \<noteq> None \<and>
   GroupMiddleware (One ''auth'') empty_controller (fresh_world :: string world) \<noteq> fresh_world"
proof -
  have 1: "routes_meta (fresh_world :: string world) (class_id empty_controller) = None"
    by (simp add: fresh_world_def)
  have 2: "routes_meta (GroupMiddleware (One ''auth'') empty_controller (fresh_world :: string world))
     (class_id empty_controller) \<noteq> None"
    by (simp add: GroupMiddleware_def empty_controller_def getOwnPropertyNames_def method_key_def)
  from 1 2 have "GroupMiddleware (One ''auth'') empty_controller (fresh_world :: string world) \<noteq> fresh_world"
    by auto
  with 1 2 empty_methods show ?thesis by simp
qed

text \<open>
  Claim C8, as amended: \<open>GroupMiddleware\<close> does not normalise its argument. The group
  appended to the list of an annotated method is the argument as passed, a single spec
  or a sequence. This is proved for every own method whose name \<open>Object.prototype\<close> does
  not define, in any class without an own method \<open>__proto__\<close>, while
  \<open>Object.prototype\<close> has no \<open>middleware\<close> property; the witness is \<open>index\<close> of a
  class that also has a method \<open>toString\<close>.
\<close>

theorem GroupMiddleware_stores_argument_as_given:
  assumes "distinct (getOwnPropertyNames (prototype target))"
    and "''__proto__'' \<notin> set (own_methods (prototype target))"
    and "object_prototype_middleware w = None"
    and "key \<in> set (own_methods (prototype target))"
    and "\<not> inherited_key key"
  shows "middleware_of (GroupMiddleware mw target w) (class_id target) key =
           Some (groups_of w (class_id target) key @ [mw])"
  using assms by (rule GroupMiddleware_appends)

theorem GroupMiddleware_stores_argument_as_given_witness:
  "distinct (getOwnPropertyNames (prototype reports_controller)) \<and>
   own_methods (prototype reports_controller) = [''index'', ''toString''] \<and>
   object_prototype_middleware (fresh_world :: string world) = None \<and>
   \<not> inherited_key ''index'' \<and>
   middleware_of (GroupMiddleware (One ''auth'') reports_controller (fresh_world :: string world))
     (class_id reports_controller) ''index'' = Some [One ''auth'']"
proof -
  have 1: "distinct (getOwnPropertyNames (prototype reports_controller))"
    by (simp add: reports_names)
  have 2: "''__proto__'' \<notin> set (own_methods (prototype reports_controller))"
    by (simp add: reports_methods)
  have 3: "object_prototype_middleware (fresh_world :: string world) = None"
    by (simp add: fresh_world_def)
  have 4: "''index'' \<in> set (own_methods (prototype reports_controller))"
    by (simp add: reports_methods)
  have 5: "\<not> inherited_key ''index''" by (rule plain_names)
  have 6: "groups_of (fresh_world :: string world) (class_id reports_controller) ''index'' = []"
    by (simp add: groups_of_def middleware_of_def route_of_def fresh_world_def)
  from GroupMiddleware_stores_argument_as_given [OF 1 2 3 4 5, of "One ''auth''"] 1 3 5 6
    reports_methods
  show ?thesis by simp
qed

text \<open>
  The claim as stated (a single spec is stored as a sequence containing it) fails: called
  with the single spec \<open>auth\<close>, the decorator stores the group \<open>auth\<close>, not \<open>[auth]\<close>.
\<close>

theorem GroupMiddleware_single_spec_not_wrapped:
  "middleware_of (GroupMiddleware (One ''auth'') posts_controller (fresh_world :: string world))
     0 ''index'' = Some [One ''auth''] \<and>
   middleware_of (GroupMiddleware (One ''auth'') posts_controller (fresh_world :: string world))
     0 ''index'' \<noteq> Some [More [''auth'']]"
  by (simp add: GroupMiddleware_def posts_controller_def getOwnPropertyNames_def method_key_def
      prop_get_def attach_def push_entry_def routes_or_new_def fresh_world_def
      object_prototype_functions_def empty_entry_def middleware_of_def route_of_def)

text \<open>
  Claim C9: \<open>ResourceMiddleware\<close> has no failing path and does not look at its
  \<open>actions\<close> argument: for every argument, unknown or misspelled names included, the
  record appended to the list holds that argument unchanged.
\<close>

theorem ResourceMiddleware_actions_unvalidated:
  "resource_meta (ResourceMiddleware actions mw target w) (class_id target) =
     Some (resources_of w (class_id target) @ [\<lparr>res_actions = actions, res_middleware = mw\<rparr>]) \<and>
   res_actions (last (resources_of (ResourceMiddleware actions mw target w) (class_id target))) =
     actions"
  by (simp add: ResourceMiddleware_def resources_of_def)

text \<open>
  Claim C10: \<open>GroupMiddleware\<close> touches the entries of own function-valued properties
  only. For a name that is not an own property of the prototype (an inherited method), or
  whose own property does not hold a function, the entry is neither created nor modified,
  in any class.
\<close>

theorem GroupMiddleware_only_own_functions:
  assumes "key \<notin> set (getOwnPropertyNames (prototype target)) \<or>
           typeof (prop_get (prototype target) key) \<noteq> ''function''"
  shows "route_of (GroupMiddleware mw target w) c key = route_of w c key"
proof -
  from assms have "key \<notin> set (targeted (Group mw target))"
    by (auto simp: own_methods_def method_key_def)
  from annotate_untargeted [OF this, of w c] show ?thesis by simp
qed

theorem GroupMiddleware_only_own_functions_witness:
  "''show'' \<notin> set (getOwnPropertyNames (prototype posts_controller)) \<and>
   route_of (GroupMiddleware (One ''log'') posts_controller
       (RouteMiddleware (One ''auth'') posts_controller ''show'' (fresh_world :: string world)))
     0 ''show'' = Some \<lparr>middleware = Some [One ''auth''], other = Map.empty\<rparr> \<and>
   typeof (prop_get (prototype posts_controller) ''version'') \<noteq> ''function'' \<and>
   route_of (GroupMiddleware (One ''log'') posts_controller
       (RouteMiddleware (One ''auth'') posts_controller ''version'' (fresh_world :: string world)))
     0 ''version'' = Some \<lparr>middleware = Some [One ''auth''], other = Map.empty\<rparr>"
proof -
  have 1: "''show'' \<notin> set (getOwnPropertyNames (prototype posts_controller))"
    by (simp add: posts_names)
  have 2: "typeof (prop_get (prototype posts_controller) ''version'') \<noteq> ''function''"
    by (simp add: posts_controller_def prop_get_def)
  from 1 have a: "''show'' \<notin> set (getOwnPropertyNames (prototype posts_controller)) \<or>
      typeof (prop_get (prototype posts_controller) ''show'') \<noteq> ''function''" by simp
  from 2 have b: "''version'' \<notin> set (getOwnPropertyNames (prototype posts_controller)) \<or>
      typeof (prop_get (prototype posts_controller) ''version'') \<noteq> ''function''" by simp
  from GroupMiddleware_only_own_functions [OF a, of "One ''log''"
      "RouteMiddleware (One ''auth'') posts_controller ''show'' (fresh_world :: string world)" 0]
    GroupMiddleware_only_own_functions [OF b, of "One ''log''"
      "RouteMiddleware (One ''auth'') posts_controller ''version'' (fresh_world :: string world)" 0]
    1 2 route_show_fresh route_version_fresh
  show ?thesis by simp
qed

end
